theory Spec2Isabelle
  imports Main "HOL-Library.Word" "HOL-Library.AList" "HOL-Library.Multiset"
begin

section \<open>Values of the Go program\<close>

text \<open>
  Go's \<^verbatim>\<open>int\<close> is taken at 64 bits: arithmetic wraps around, and comparisons read
  the word as two's complement through \<^const>\<open>sint\<close>. A \<^verbatim>\<open>peer.ID\<close> is a Go
  string. A \<^verbatim>\<open>*cid.Cid\<close> is a pointer that may be nil, hence an option; the
  content identifier itself is kept as its canonical string.
\<close>

type_synonym goint = "64 word"
type_synonym peer = string
type_synonym cid = string

text \<open>A Go \<^verbatim>\<open>error\<close> value, as \<^verbatim>\<open>errors.New\<close> builds it: it holds its message.\<close>

datatype error = Error string

text \<open>A call either panics or returns.\<close>

datatype 'a outcome = Panic | Return 'a

text \<open>An instant of \<^verbatim>\<open>time.Time\<close>, in nanoseconds since the Unix epoch (UTC).\<close>

type_synonym time = int

text \<open>\<^verbatim>\<open>t.After(u)\<close> of package time: the instant \<open>t\<close> is strictly later than \<open>u\<close>.\<close>

definition After :: "time \<Rightarrow> time \<Rightarrow> bool" where
  "After t u = (u < t)"

definition RFC3339Nano :: string where
  "RFC3339Nano = ''2006-01-02T15:04:05.999999999Z07:00''"

text \<open>
  What the Go runtime and the standard library supply to one call: the reading of
  \<^verbatim>\<open>time.Now()\<close> (one instant for the whole call), \<^verbatim>\<open>time.Parse(layout, value)\<close>
  with its pair of results, and the order in which a \<^verbatim>\<open>range\<close> over a map visits
  the keys (Go leaves it unspecified), given as a rearrangement of the keys.
\<close>

record runtime =
  time_Now :: time
  time_Parse :: "string \<Rightarrow> string \<Rightarrow> time \<times> error option"
  map_range :: "peer list \<Rightarrow> peer list"

section \<open>api/types.go\<close>

record Pin =
  Cid :: "cid option"
  Name :: string
  Allocations :: "peer list"
  ReplicationFactor :: goint

record PinSerial =
  Cid :: string
  Name :: string
  Allocations :: "string list"
  Everywhere :: bool
  ReplicationFactor :: goint

record Metric =
  Name :: string
  Peer :: peer
  Value :: string
  Expire :: string
  Valid :: bool

text \<open>
  \<^verbatim>\<open>StringsToPeers\<close>: every string is decoded with \<^verbatim>\<open>peer.IDB58Decode\<close> (a
  parameter here, with Go's pair of results); the first result is stored whether or
  not the second is an error, which is only logged.
\<close>

definition StringsToPeers :: "(string \<Rightarrow> peer \<times> error option) \<Rightarrow> string list \<Rightarrow> peer list" where
  "StringsToPeers IDB58Decode strs = map (\<lambda>p. fst (IDB58Decode p)) strs"

text \<open>\<^verbatim>\<open>PinSerial.ToPin\<close>; \<^verbatim>\<open>cid.Decode\<close> is a parameter, its error is only logged.\<close>

definition ToPin ::
  "(string \<Rightarrow> cid option \<times> error option) \<Rightarrow> (string \<Rightarrow> peer \<times> error option) \<Rightarrow> PinSerial \<Rightarrow> Pin" where
  "ToPin cid_Decode IDB58Decode pins =
     (let c = fst (cid_Decode (PinSerial.Cid pins));
          pins' = (if PinSerial.ReplicationFactor pins = 0 \<and> Everywhere pins
                   then pins\<lparr>PinSerial.ReplicationFactor := - 1\<rparr> else pins)
      in \<lparr>Pin.Cid = c,
          Pin.Name = PinSerial.Name pins',
          Pin.Allocations = StringsToPeers IDB58Decode (PinSerial.Allocations pins'),
          Pin.ReplicationFactor = PinSerial.ReplicationFactor pins'\<rparr>)"

text \<open>
  \<^verbatim>\<open>Metric.Expired\<close>: true for an empty \<^verbatim>\<open>Expire\<close>; a string that does not parse
  panics; otherwise the answer is \<^verbatim>\<open>time.Now().After(exp)\<close>.
\<close>

definition Expired :: "runtime \<Rightarrow> Metric \<Rightarrow> bool outcome" where
  "Expired rt m =
     (if Expire m = [] then Return True
      else case time_Parse rt RFC3339Nano (Expire m) of
             (exp, Some err) \<Rightarrow> Panic
           | (exp, None) \<Rightarrow> Return (After (time_Now rt) exp))"

text \<open>
  \<^verbatim>\<open>Metric.Discard\<close>: \<^verbatim>\<open>!m.Valid || m.Expired()\<close>; the right operand is only
  evaluated for a valid metric.
\<close>

definition Discard :: "runtime \<Rightarrow> Metric \<Rightarrow> bool outcome" where
  "Discard rt m = (if \<not> Valid m then Return True else Expired rt m)"

section \<open>Helpers of the package that the allocation code calls\<close>

text \<open>
  Modelled from the spec: \<^verbatim>\<open>containsPeer\<close> is called by \<^verbatim>\<open>allocate\<close> and declared
  in another file of the package. The spec's partition step reads it as membership
  (\<^verbatim>\<open>m.Peer\<close> in \<^verbatim>\<open>blacklist\<close>, \<^verbatim>\<open>m.Peer\<close> in \<^verbatim>\<open>current\<close>).
\<close>

primrec containsPeer :: "peer list \<Rightarrow> peer \<Rightarrow> bool" where
  "containsPeer [] p = False"
| "containsPeer (x # xs) p = (x = p \<or> containsPeer xs p)"

text \<open>
  Modelled from the spec: \<^verbatim>\<open>minInt\<close> is called by \<^verbatim>\<open>obtainAllocations\<close> and
  declared in another file of the package. The spec takes \<^verbatim>\<open>min(want, |ranked|)\<close>.
\<close>

definition minInt :: "goint \<Rightarrow> goint \<Rightarrow> goint" where
  "minInt x y = (if sint x < sint y then x else y)"

text \<open>
  Modelled from the spec: \<^verbatim>\<open>logError\<close> is called by \<^verbatim>\<open>obtainAllocations\<close> and
  declared in another file of the package. The spec surfaces the allocator's error as the
  error of the call: an error with the message handed over.
\<close>

definition logError :: "string \<Rightarrow> error" where
  "logError msg = Error msg"

text \<open>\<^verbatim>\<open>err.Error()\<close>: the message of an error.\<close>

fun error_Error :: "error \<Rightarrow> string" where
  "error_Error (Error msg) = msg"

text \<open>\<^verbatim>\<open>len\<close> of a slice or a map, a Go \<^verbatim>\<open>int\<close>.\<close>

definition len :: "'a list \<Rightarrow> goint" where
  "len xs = of_nat (length xs)"

text \<open>
  The slice expression \<^verbatim>\<open>s[0:high]\<close>: it panics unless \<open>0 \<le> high \<le> cap(s)\<close>. Both
  slices cut by \<^verbatim>\<open>obtainAllocations\<close> are taken with a capacity equal to their length
  (\<^verbatim>\<open>validAllocations\<close> is made with the capacity it ends up filling).
\<close>

definition slice_to :: "'a list \<Rightarrow> goint \<Rightarrow> 'a list outcome" where
  "slice_to s high =
     (if 0 \<le> sint high \<and> nat (sint high) \<le> length s
      then Return (take (nat (sint high)) s) else Panic)"

text \<open>\<^verbatim>\<open>fmt.Sprintf("%d", i)\<close>: the decimal numeral of an integer.\<close>

fun digits :: "nat \<Rightarrow> string" where
  "digits n =
     (if n < 10 then [''0123456789'' ! n]
      else digits (n div 10) @ [''0123456789'' ! (n mod 10)])"

declare digits.simps [simp del]

definition Sprintf_d :: "int \<Rightarrow> string" where
  "Sprintf_d i = (if i < 0 then CHR ''-'' # digits (nat (- i)) else digits (nat i))"

text \<open>
  Reading a decimal numeral back, to show that the numeral determines the number.
\<close>

definition digit_value :: "char \<Rightarrow> nat" where
  "digit_value ch = of_char ch - 48"

definition undigits :: "string \<Rightarrow> nat" where
  "undigits s = foldl (\<lambda>a ch. 10 * a + digit_value ch) 0 s"

section \<open>The allocation code\<close>

text \<open>
  A Go \<^verbatim>\<open>map[peer.ID]api.Metric\<close> is an association list with one entry per key;
  \<^verbatim>\<open>m[k] = v\<close> is \<^const>\<open>AList.update\<close>, \<^verbatim>\<open>len(m)\<close> the number of entries, and a
  \<^verbatim>\<open>range\<close> over it visits the keys in the order \<^const>\<open>map_range\<close> puts them in.
\<close>

type_synonym metric_map = "(peer \<times> Metric) list"

definition range_keys :: "runtime \<Rightarrow> metric_map \<Rightarrow> peer list" where
  "range_keys rt m = map_range rt (map fst m)"

text \<open>
  The collaborators a \<^verbatim>\<open>Cluster\<close> holds, each with Go's pair of results:
  \<^verbatim>\<open>c.consensus.State()\<close> (the state answers \<^verbatim>\<open>Get(h)\<close> with a \<^verbatim>\<open>Pin\<close>),
  \<^verbatim>\<open>c.consensus.Leader()\<close>, \<^verbatim>\<open>c.informer.Name()\<close>,
  \<^verbatim>\<open>c.rpcClient.Call(peer, service, method, argument, &reply)\<close> and
  \<^verbatim>\<open>c.allocator.Allocate(hash, current, candidates)\<close>.
\<close>

record Cluster =
  consensus_State :: "(cid option \<Rightarrow> Pin) \<times> error option"
  consensus_Leader :: "peer \<times> error option"
  informer_Name :: string
  rpcClient_Call :: "peer \<Rightarrow> string \<Rightarrow> string \<Rightarrow> string \<Rightarrow> Metric list \<times> error option"
  allocator_Allocate :: "cid option \<Rightarrow> metric_map \<Rightarrow> metric_map \<Rightarrow> peer list \<times> error option"

text \<open>\<^verbatim>\<open>getCurrentAllocations\<close>: no state is read as no allocations.\<close>

definition getCurrentAllocations :: "Cluster \<Rightarrow> cid option \<Rightarrow> peer list" where
  "getCurrentAllocations c h =
     (case consensus_State c of
        (st, Some err) \<Rightarrow> []
      | (st, None) \<Rightarrow> Pin.Allocations (st h))"

text \<open>\<^verbatim>\<open>getInformerMetrics\<close>: the first result is nil (here the empty list) on an error.\<close>

definition getInformerMetrics :: "Cluster \<Rightarrow> Metric list \<times> error option" where
  "getInformerMetrics c =
     (let metricName = informer_Name c in
      case consensus_Leader c of
        (l, Some err) \<Rightarrow> ([], Some (Error ''cannot determine leading Monitor''))
      | (l, None) \<Rightarrow>
          (case rpcClient_Call c l ''Cluster'' ''PeerMonitorLastMetrics'' metricName of
             (metrics, Some err) \<Rightarrow> ([], Some err)
           | (metrics, None) \<Rightarrow> (metrics, None)))"

text \<open>
  \<^verbatim>\<open>allocationError\<close>: the value returned is \<^verbatim>\<open>errors.New(errorMsg)\<close>. The lines it
  writes to the log (the hash and each candidate among them) are no part of the value
  and are left out here, as is every other logging call.
\<close>

definition allocationError :: "cid option \<Rightarrow> goint \<Rightarrow> goint \<Rightarrow> peer list \<Rightarrow> error" where
  "allocationError hash needed wanted candidatesValid =
     Error (''not enough peers to allocate CID. '' @
            ''Needed at least: '' @ Sprintf_d (sint needed) @ ''. '' @
            ''Wanted at most: '' @ Sprintf_d (sint wanted) @ ''. '' @
            ''Valid candidates: '' @ Sprintf_d (sint (len candidatesValid)) @ ''. '' @
            ''See logs for more info.'')"

text \<open>
  \<^verbatim>\<open>obtainAllocations\<close>. The result is Go's pair: a slice that may be nil
  (\<^const>\<open>None\<close>) and an error that may be nil.
\<close>

definition obtainAllocations ::
  "Cluster \<Rightarrow> runtime \<Rightarrow> cid option \<Rightarrow> goint \<Rightarrow> goint \<Rightarrow> metric_map \<Rightarrow> metric_map \<Rightarrow>
     (peer list option \<times> error option) outcome" where
  "obtainAllocations c rt hash rplMin rplMax currentValidMetrics candidatesMetrics =
     (let validAllocations = range_keys rt currentValidMetrics;
          nCurrentValid = len validAllocations;
          nCandidatesValid = len candidatesMetrics;
          needed = rplMin - nCurrentValid;
          wanted = rplMax - nCurrentValid
      in
        if sint wanted \<le> 0 then
          (case slice_to validAllocations (len validAllocations + wanted) of
             Panic \<Rightarrow> Panic
           | Return dropped \<Rightarrow> Return (Some dropped, None))
        else if sint needed \<le> 0 then Return (None, None)
        else if sint nCandidatesValid < sint needed then
          Return (None, Some (allocationError hash needed wanted (range_keys rt candidatesMetrics)))
        else
          (case allocator_Allocate c hash currentValidMetrics candidatesMetrics of
             (finalAllocs, Some err) \<Rightarrow> Return (None, Some (logError (error_Error err)))
           | (finalAllocs, None) \<Rightarrow>
               if sint (len finalAllocs) < sint needed then
                 Return (None, Some (allocationError hash needed wanted finalAllocs))
               else
                 (let allocationsToUse = minInt wanted (len finalAllocs) in
                  case slice_to finalAllocs allocationsToUse of
                    Panic \<Rightarrow> Panic
                  | Return chosen \<Rightarrow> Return (Some (validAllocations @ chosen), None))))"

text \<open>
  The loop of \<^verbatim>\<open>allocate\<close> that divides the metrics between the two maps, which it
  threads through as a pair (current, candidates). A metric whose \<^verbatim>\<open>Discard\<close>
  panics ends the call.
\<close>

fun divide ::
  "runtime \<Rightarrow> peer list \<Rightarrow> peer list \<Rightarrow> Metric list \<Rightarrow> metric_map \<times> metric_map \<Rightarrow>
     (metric_map \<times> metric_map) outcome" where
  "divide rt blacklist currentAllocs [] (currentMetrics, candidatesMetrics) =
     Return (currentMetrics, candidatesMetrics)"
| "divide rt blacklist currentAllocs (m # metrics) (currentMetrics, candidatesMetrics) =
     (case Discard rt m of
        Panic \<Rightarrow> Panic
      | Return discard \<Rightarrow>
          if discard \<or> containsPeer blacklist (Peer m) then
            divide rt blacklist currentAllocs metrics (currentMetrics, candidatesMetrics)
          else if containsPeer currentAllocs (Peer m) then
            divide rt blacklist currentAllocs metrics
              (AList.update (Peer m) m currentMetrics, candidatesMetrics)
          else
            divide rt blacklist currentAllocs metrics
              (currentMetrics, AList.update (Peer m) m candidatesMetrics))"

text \<open>\<^verbatim>\<open>allocate\<close>.\<close>

definition allocate ::
  "Cluster \<Rightarrow> runtime \<Rightarrow> cid option \<Rightarrow> goint \<Rightarrow> goint \<Rightarrow> peer list \<Rightarrow>
     (peer list option \<times> error option) outcome" where
  "allocate c rt hash rplMin rplMax blacklist =
     (let currentAllocs = getCurrentAllocations c hash in
      case getInformerMetrics c of
        (metrics, Some err) \<Rightarrow> Return (None, Some err)
      | (metrics, None) \<Rightarrow>
          (case divide rt blacklist currentAllocs metrics ([], []) of
             Panic \<Rightarrow> Panic
           | Return (currentMetrics, candidatesMetrics) \<Rightarrow>
               obtainAllocations c rt hash rplMin rplMax currentMetrics candidatesMetrics))"

section \<open>Scenarios\<close>

text \<open>
  The values the worked examples below run on. \<open>scenario_Parse\<close> gives the readings of
  \<^verbatim>\<open>time.Parse\<close> on the three timestamps the examples use and an error on any other
  string; the clock of \<open>scenario_runtime\<close> reads 2026-11-03T00:00:00Z, and its maps are
  ranged over in the order of insertion.
\<close>

definition scenario_Parse :: "string \<Rightarrow> string \<Rightarrow> time \<times> error option" where
  "scenario_Parse layout v =
     (if v = ''2026-11-03T00:00:00Z'' then (1793664000000000000, None)
      else if v = ''2026-11-03T01:00:00Z'' then (1793667600000000000, None)
      else if v = ''2026-11-02T23:00:00Z'' then (1793660400000000000, None)
      else (0, Some (Error ''parsing time'')))"

definition scenario_runtime :: runtime where
  "scenario_runtime =
     \<lparr>time_Now = 1793664000000000000, time_Parse = scenario_Parse, map_range = (\<lambda>ks. ks)\<rparr>"

text \<open>A valid metric that expires in an hour, at this very instant, or an hour ago.\<close>

definition usable_metric :: "peer \<Rightarrow> Metric" where
  "usable_metric p =
     \<lparr>Metric.Name = ''freespace'', Peer = p, Value = ''100'',
      Expire = ''2026-11-03T01:00:00Z'', Valid = True\<rparr>"

definition expiring_metric :: "peer \<Rightarrow> Metric" where
  "expiring_metric p =
     \<lparr>Metric.Name = ''freespace'', Peer = p, Value = ''100'',
      Expire = ''2026-11-03T00:00:00Z'', Valid = True\<rparr>"

definition expired_metric :: "peer \<Rightarrow> Metric" where
  "expired_metric p =
     \<lparr>Metric.Name = ''freespace'', Peer = p, Value = ''100'',
      Expire = ''2026-11-02T23:00:00Z'', Valid = True\<rparr>"

text \<open>
  A cluster whose state allocates \<open>current\<close> to every hash, whose monitor answers with
  \<open>metrics\<close>, and whose allocator ranks the candidates it is given in the fixed order
  \<open>ranking\<close>, leaving out every peer that is not a candidate.
\<close>

definition scenario_cluster :: "peer list \<Rightarrow> Metric list \<Rightarrow> peer list \<Rightarrow> Cluster" where
  "scenario_cluster current metrics ranking =
     \<lparr>consensus_State =
        (\<lambda>h. \<lparr>Pin.Cid = h, Pin.Name = [], Pin.Allocations = current, Pin.ReplicationFactor = 0\<rparr>,
         None),
      consensus_Leader = (''P1'', None),
      informer_Name = ''freespace'',
      rpcClient_Call = (\<lambda>l svc method arg. (metrics, None)),
      allocator_Allocate = (\<lambda>h cur cand. (filter (containsPeer (map fst cand)) ranking, None))\<rparr>"

lemmas scenario_defs =
  scenario_cluster_def scenario_runtime_def scenario_Parse_def
  usable_metric_def expired_metric_def

lemmas allocate_defs =
  allocate_def getCurrentAllocations_def getInformerMetrics_def Discard_def Expired_def
  After_def obtainAllocations_def range_keys_def len_def slice_to_def minInt_def Let_def
  allocationError_def Sprintf_d_def digits.simps logError_def

section \<open>Facts about the helpers\<close>

lemma containsPeer_iff: "containsPeer xs p \<longleftrightarrow> p \<in> set xs"
  by (induction xs) auto

lemma sint_len: "length xs < 2 ^ 63 \<Longrightarrow> sint (len xs) = int (length xs)"
  unfolding len_def
  by (simp add: signed_of_nat signed_take_bit_int_eq_self)

lemma sint_sub_len:
  assumes "0 \<le> sint (r::goint)" and "length xs < 2 ^ 63"
  shows "sint (r - len xs) = sint r - int (length xs)"
proof -
  have "sint r < 2 ^ 63" using sint_lt [of r] by simp
  with assms show ?thesis
    by (simp add: sint_word_diff sint_len signed_take_bit_int_eq_self)
qed

lemma sint_minInt: "sint (minInt x y) = min (sint x) (sint y)"
  by (simp add: minInt_def min_def)

lemma slice_to_Return:
  "slice_to s high = Return t \<longleftrightarrow> 0 \<le> sint high \<and> nat (sint high) \<le> length s \<and> t = take (nat (sint high)) s"
  by (auto simp: slice_to_def)

lemma length_range_keys:
  assumes "\<And>ks. mset (map_range rt ks) = mset ks"
  shows "length (range_keys rt m) = length m"
proof -
  have "size (mset (map_range rt (map fst m))) = size (mset (map fst m))"
    using assms by simp
  then show ?thesis by (simp add: range_keys_def)
qed

lemma set_range_keys:
  assumes "\<And>ks. mset (map_range rt ks) = mset ks"
  shows "set (range_keys rt m) = fst ` set m"
proof -
  have "set_mset (mset (map_range rt (map fst m))) = set_mset (mset (map fst m))"
    using assms by simp
  then show ?thesis by (simp add: range_keys_def)
qed

lemma distinct_range_keys:
  assumes "\<And>ks. mset (map_range rt ks) = mset ks" and "distinct (map fst m)"
  shows "distinct (range_keys rt m)"
proof -
  have "mset (range_keys rt m) = mset (map fst m)" using assms(1) by (simp add: range_keys_def)
  then have "distinct (range_keys rt m) = distinct (map fst m)" by (rule mset_eq_imp_distinct_iff)
  with assms(2) show ?thesis by simp
qed

lemma len_range_keys:
  assumes "\<And>ks. mset (map_range rt ks) = mset ks"
  shows "len (range_keys rt m) = len m"
  using length_range_keys [OF assms] by (simp add: len_def)

lemma allocationError_len:
  "len xs = len ys \<Longrightarrow> allocationError h n w xs = allocationError h n w ys"
  by (simp add: allocationError_def)

lemma scenario_range: "mset (map_range scenario_runtime ks) = mset ks"
  by (simp add: scenario_runtime_def)

section \<open>Facts about the error message\<close>

lemma digit_cases:
  assumes "d < (10::nat)"
  shows "d = 0 \<or> d = 1 \<or> d = 2 \<or> d = 3 \<or> d = 4 \<or> d = 5 \<or> d = 6 \<or> d = 7 \<or> d = 8 \<or> d = 9"
  using assms by arith

lemma digit_value_nth: "d < 10 \<Longrightarrow> digit_value (''0123456789'' ! d) = d"
  by (drule digit_cases) (auto simp: digit_value_def)

lemma digit_nth_plain: "d < 10 \<Longrightarrow> ''0123456789'' ! d \<noteq> CHR ''.'' \<and> ''0123456789'' ! d \<noteq> CHR ''-''"
  by (drule digit_cases) auto

lemma undigits_snoc: "undigits (s @ [ch]) = 10 * undigits s + digit_value ch"
  by (simp add: undigits_def)

lemma undigits_digits: "undigits (digits n) = n"
proof (induction n rule: digits.induct)
  case (1 n)
  show ?case
  proof (cases "n < 10")
    case True
    then show ?thesis by (simp add: digits.simps [of n] undigits_def digit_value_nth)
  next
    case False
    with "1.IH" show ?thesis
      by (simp add: digits.simps [of n] undigits_snoc digit_value_nth)
  qed
qed

lemma digits_plain: "CHR ''.'' \<notin> set (digits n) \<and> CHR ''-'' \<notin> set (digits n)"
proof (induction n rule: digits.induct)
  case (1 n)
  show ?case
  proof (cases "n < 10")
    case True
    then show ?thesis using digit_nth_plain [of n] by (auto simp: digits.simps [of n])
  next
    case False
    with "1.IH" show ?thesis using digit_nth_plain [of "n mod 10"]
      by (auto simp: digits.simps [of n])
  qed
qed

lemma digits_nonempty: "digits n \<noteq> []"
proof (cases "n < 10")
  case True
  then have "digits n = [''0123456789'' ! n]" by (subst digits.simps) (simp only: if_True)
  then show ?thesis by (simp only: list.simps not_False_eq_True)
next
  case False
  then have "digits n = digits (n div 10) @ [''0123456789'' ! (n mod 10)]"
    by (subst digits.simps) (simp only: if_False)
  then show ?thesis by (simp only: snoc_eq_iff_butlast not_False_eq_True simp_thms)
qed

lemma digits_inj: "digits m = digits n \<Longrightarrow> m = n"
  by (metis undigits_digits)

lemma Sprintf_d_inj: "Sprintf_d i = Sprintf_d j \<Longrightarrow> i = j"
proof -
  assume eq: "Sprintf_d i = Sprintf_d j"
  have hd: "hd (digits n) \<noteq> CHR ''-''" for n
  proof -
    have "hd (digits n) \<in> set (digits n)" using digits_nonempty [of n] by (rule hd_in_set)
    with digits_plain [of n] show ?thesis by metis
  qed
  consider (nn) "i < 0" "j < 0" | (np) "i < 0" "\<not> j < 0" | (pn) "\<not> i < 0" "j < 0" | (pp) "\<not> i < 0" "\<not> j < 0"
    by blast
  then show ?thesis
  proof cases
    case nn
    with eq have "digits (nat (- i)) = digits (nat (- j))" by (simp add: Sprintf_d_def)
    then have "nat (- i) = nat (- j)" by (rule digits_inj)
    with nn show ?thesis by simp
  next
    case np
    with eq have "CHR ''-'' # digits (nat (- i)) = digits (nat j)" by (simp add: Sprintf_d_def)
    then have "hd (digits (nat j)) = CHR ''-''" by (metis list.sel(1))
    with hd show ?thesis by simp
  next
    case pn
    with eq have "digits (nat i) = CHR ''-'' # digits (nat (- j))" by (simp add: Sprintf_d_def)
    then have "hd (digits (nat i)) = CHR ''-''" by simp
    with hd show ?thesis by simp
  next
    case pp
    with eq have "digits (nat i) = digits (nat j)" by (simp add: Sprintf_d_def)
    then have "nat i = nat j" by (rule digits_inj)
    with pp show ?thesis by simp
  qed
qed

lemma Sprintf_d_no_dot: "CHR ''.'' \<notin> set (Sprintf_d i)"
  using digits_plain by (simp add: Sprintf_d_def)

lemma split_at_dot:
  assumes "CHR ''.'' \<notin> set xs" and "CHR ''.'' \<notin> set ys"
    and "xs @ CHR ''.'' # r = ys @ CHR ''.'' # r'"
  shows "xs = ys \<and> r = r'"
proof -
  have tw: "CHR ''.'' \<notin> set zs \<Longrightarrow> takeWhile (\<lambda>ch. ch \<noteq> CHR ''.'') (zs @ CHR ''.'' # t) = zs"
    for zs t
    by (induction zs) auto
  have "takeWhile (\<lambda>ch. ch \<noteq> CHR ''.'') (xs @ CHR ''.'' # r) = xs"
    using assms(1) by (rule tw)
  moreover have "takeWhile (\<lambda>ch. ch \<noteq> CHR ''.'') (ys @ CHR ''.'' # r') = ys"
    using assms(2) by (rule tw)
  ultimately have "xs = ys" using assms(3) by simp
  with assms(3) show ?thesis by simp
qed

text \<open>
  The error of \<open>allocationError\<close> is determined by the two counts and the number of
  candidates it is given, and determines them; the hash and the candidates themselves
  do not enter it.
\<close>

lemma allocationError_carries:
  "allocationError h n w cs = allocationError h' n' w' cs' \<longleftrightarrow>
     n = n' \<and> w = w' \<and> len cs = len cs'"
proof
  assume eq: "allocationError h n w cs = allocationError h' n' w' cs'"
  let ?t2 = "\<lambda>w cs. '' Wanted at most: '' @ Sprintf_d (sint w) @ ''. Valid candidates: '' @
                       Sprintf_d (sint (len cs)) @ ''. See logs for more info.''"
  let ?t3 = "\<lambda>cs. '' Valid candidates: '' @ Sprintf_d (sint (len cs)) @ ''. See logs for more info.''"
  from eq have e1: "Sprintf_d (sint n) @ CHR ''.'' # ?t2 w cs = Sprintf_d (sint n') @ CHR ''.'' # ?t2 w' cs'"
    by (simp add: allocationError_def)
  from split_at_dot [OF Sprintf_d_no_dot Sprintf_d_no_dot e1]
  have n: "Sprintf_d (sint n) = Sprintf_d (sint n')" and r1: "?t2 w cs = ?t2 w' cs'" by simp_all
  from r1 have e2: "Sprintf_d (sint w) @ CHR ''.'' # ?t3 cs = Sprintf_d (sint w') @ CHR ''.'' # ?t3 cs'"
    by simp
  from split_at_dot [OF Sprintf_d_no_dot Sprintf_d_no_dot e2]
  have w: "Sprintf_d (sint w) = Sprintf_d (sint w')" and r2: "?t3 cs = ?t3 cs'" by simp_all
  from r2 have e3: "Sprintf_d (sint (len cs)) @ CHR ''.'' # '' See logs for more info.'' =
                    Sprintf_d (sint (len cs')) @ CHR ''.'' # '' See logs for more info.''"
    by simp
  from split_at_dot [OF Sprintf_d_no_dot Sprintf_d_no_dot e3]
  have c: "Sprintf_d (sint (len cs)) = Sprintf_d (sint (len cs'))" by simp
  from n w c show "n = n' \<and> w = w' \<and> len cs = len cs'"
    by (auto dest!: Sprintf_d_inj intro: signed_word_eqI)
next
  assume "n = n' \<and> w = w' \<and> len cs = len cs'"
  then show "allocationError h n w cs = allocationError h' n' w' cs'"
    by (simp add: allocationError_def)
qed

section \<open>Facts about the loop of allocate\<close>

lemma length_update_le: "length (AList.update k v al) \<le> Suc (length al)"
  by (induction al) auto

lemma divide_length:
  "divide rt bl cur ms (c0, d0) = Return (c, d) \<Longrightarrow>
     length c \<le> length c0 + length ms \<and> length d \<le> length d0 + length ms"
proof (induction ms arbitrary: c0 d0)
  case Nil
  then show ?case by simp
next
  case (Cons m ms)
  show ?case
  proof (cases "Discard rt m")
    case Panic
    with Cons.prems show ?thesis by simp
  next
    case (Return b)
    consider (skip) "b \<or> containsPeer bl (Peer m)"
      | (current) "\<not> (b \<or> containsPeer bl (Peer m))" "containsPeer cur (Peer m)"
      | (candidate) "\<not> (b \<or> containsPeer bl (Peer m))" "\<not> containsPeer cur (Peer m)"
      by blast
    then show ?thesis
    proof cases
      case skip
      with Cons.prems Return have "divide rt bl cur ms (c0, d0) = Return (c, d)" by simp
      from Cons.IH [OF this] show ?thesis by simp
    next
      case current
      with Cons.prems Return
      have "divide rt bl cur ms (AList.update (Peer m) m c0, d0) = Return (c, d)" by simp
      from Cons.IH [OF this] show ?thesis
        using length_update_le [of "Peer m" m c0] length_update_le [of "Peer m" m d0] by simp
    next
      case candidate
      with Cons.prems Return
      have "divide rt bl cur ms (c0, AList.update (Peer m) m d0) = Return (c, d)" by simp
      from Cons.IH [OF this] show ?thesis
        using length_update_le [of "Peer m" m c0] length_update_le [of "Peer m" m d0] by simp
    qed
  qed
qed

lemma divide_keys:
  "divide rt bl cur ms (c0, d0) = Return (c, d) \<Longrightarrow>
     (\<forall>p \<in> fst ` set c. p \<in> fst ` set c0 \<or>
         (p \<notin> set bl \<and> p \<in> set cur \<and> (\<exists>m \<in> set ms. Peer m = p \<and> Discard rt m = Return False))) \<and>
     (\<forall>p \<in> fst ` set d. p \<in> fst ` set d0 \<or>
         (p \<notin> set bl \<and> p \<notin> set cur \<and> (\<exists>m \<in> set ms. Peer m = p \<and> Discard rt m = Return False)))"
proof (induction ms arbitrary: c0 d0)
  case Nil
  then show ?case by simp
next
  case (Cons m ms)
  show ?case
  proof (cases "Discard rt m")
    case Panic
    with Cons.prems show ?thesis by simp
  next
    case (Return b)
    consider (skip) "b \<or> containsPeer bl (Peer m)"
      | (current) "\<not> b" "Peer m \<notin> set bl" "Peer m \<in> set cur"
      | (candidate) "\<not> b" "Peer m \<notin> set bl" "Peer m \<notin> set cur"
      by (auto simp: containsPeer_iff)
    then show ?thesis
    proof cases
      case skip
      with Cons.prems Return have "divide rt bl cur ms (c0, d0) = Return (c, d)" by simp
      from Cons.IH [OF this] show ?thesis by auto
    next
      case current
      with Cons.prems Return
      have "divide rt bl cur ms (AList.update (Peer m) m c0, d0) = Return (c, d)"
        by (simp add: containsPeer_iff)
      from Cons.IH [OF this] current Return show ?thesis
        by (auto simp: AList.dom_update)
    next
      case candidate
      with Cons.prems Return
      have "divide rt bl cur ms (c0, AList.update (Peer m) m d0) = Return (c, d)"
        by (simp add: containsPeer_iff)
      from Cons.IH [OF this] candidate Return show ?thesis
        by (auto simp: AList.dom_update)
    qed
  qed
qed

lemma Discard_map_range: "Discard (rt\<lparr>map_range := order'\<rparr>) m = Discard rt m"
  by (simp add: Discard_def Expired_def)

lemma divide_map_range:
  "divide (rt\<lparr>map_range := order'\<rparr>) bl cur ms acc = divide rt bl cur ms acc"
proof (induction ms arbitrary: acc)
  case Nil
  show ?case by (cases acc) simp
next
  case (Cons m ms)
  show ?case by (cases acc) (simp add: Discard_map_range Cons.IH split: outcome.splits)
qed

text \<open>
  Whether the loop panics depends on the metrics alone; the keys it leaves in the map
  of current metrics are the peers of the allocation that have a usable metric and are
  not blacklisted, each once.
\<close>

lemma divide_returns:
  "divide rt bl ca ms (c0, d0) = Return (c, d) \<Longrightarrow>
     \<exists>c' d'. divide rt bl ca' ms (c0', d0') = Return (c', d')"
proof (induction ms arbitrary: c0 d0 c0' d0')
  case Nil
  show ?case by simp
next
  case (Cons m ms)
  show ?case
  proof (cases "Discard rt m")
    case Panic
    with Cons.prems show ?thesis by simp
  next
    case (Return b)
    from Cons.prems Return obtain c1 d1 where
      "divide rt bl ca ms (c1, d1) = Return (c, d)"
      by (auto split: if_splits)
    from Cons.IH [OF this] Return show ?thesis by simp
  qed
qed

lemma divide_keys_exact:
  "divide rt bl ca ms (c0, d0) = Return (c, d) \<Longrightarrow>
     fst ` set c = fst ` set c0 \<union>
       {p \<in> Peer ` {m \<in> set ms. Discard rt m = Return False}. p \<notin> set bl \<and> p \<in> set ca}"
proof (induction ms arbitrary: c0 d0)
  case Nil
  then show ?case by simp
next
  case (Cons m ms)
  show ?case
  proof (cases "Discard rt m")
    case Panic
    with Cons.prems show ?thesis by simp
  next
    case (Return b)
    consider (skip) "b \<or> Peer m \<in> set bl"
      | (current) "\<not> b" "Peer m \<notin> set bl" "Peer m \<in> set ca"
      | (candidate) "\<not> b" "Peer m \<notin> set bl" "Peer m \<notin> set ca"
      by blast
    then show ?thesis
    proof cases
      case skip
      with Cons.prems Return have "divide rt bl ca ms (c0, d0) = Return (c, d)"
        by (auto simp: containsPeer_iff)
      from Cons.IH [OF this] skip Return show ?thesis by auto
    next
      case current
      with Cons.prems Return
      have "divide rt bl ca ms (AList.update (Peer m) m c0, d0) = Return (c, d)"
        by (simp add: containsPeer_iff)
      from Cons.IH [OF this] current Return show ?thesis
        by (auto simp: AList.dom_update)
    next
      case candidate
      with Cons.prems Return
      have "divide rt bl ca ms (c0, AList.update (Peer m) m d0) = Return (c, d)"
        by (simp add: containsPeer_iff)
      from Cons.IH [OF this] candidate Return show ?thesis by auto
    qed
  qed
qed

lemma divide_distinct:
  "divide rt bl ca ms (c0, d0) = Return (c, d) \<Longrightarrow> distinct (map fst c0) \<Longrightarrow>
     distinct (map fst c)"
proof (induction ms arbitrary: c0 d0)
  case Nil
  then show ?case by simp
next
  case (Cons m ms)
  show ?case
  proof (cases "Discard rt m")
    case Panic
    with Cons.prems show ?thesis by simp
  next
    case (Return b)
    from Cons.prems Return obtain c1 d1 where
      step: "divide rt bl ca ms (c1, d1) = Return (c, d)" and
      c1: "c1 = c0 \<or> c1 = AList.update (Peer m) m c0"
      by (auto split: if_splits)
    from c1 Cons.prems(2) have "distinct (map fst c1)"
      by (auto simp: AList.distinct_update)
    with Cons.IH [OF step] show ?thesis by simp
  qed
qed

section \<open>Facts about allocate and obtainAllocations\<close>

lemma allocate_Return_Some:
  assumes "allocate c rt hash rplMin rplMax blacklist = Return (Some A, e)"
  obtains metrics cur cand where
    "getInformerMetrics c = (metrics, None)"
    "divide rt blacklist (getCurrentAllocations c hash) metrics ([], []) = Return (cur, cand)"
    "obtainAllocations c rt hash rplMin rplMax cur cand = Return (Some A, e)"
  using assms
  by (auto simp: allocate_def Let_def split: prod.splits option.splits outcome.splits)

lemma allocate_fetched:
  assumes "getInformerMetrics c = (metrics, None)"
    and "divide rt blacklist (getCurrentAllocations c hash) metrics ([], []) = Return (cur, cand)"
  shows "allocate c rt hash rplMin rplMax blacklist =
           obtainAllocations c rt hash rplMin rplMax cur cand"
  using assms by (simp add: allocate_def Let_def)

text \<open>
  The two ways \<open>obtainAllocations\<close> returns a list, in numbers: the first
  \<open>rplMax\<close> current-valid peers, or all of them followed by \<open>k\<close> ranked peers with
  \<open>rplMin \<le> nCur + k \<le> rplMax\<close>.
\<close>

lemma obtainAllocations_Some:
  assumes range: "\<And>ks. mset (map_range rt ks) = mset ks"
    and pre: "0 < sint rplMin" "sint rplMin \<le> sint rplMax"
    and small: "length cur < 2 ^ 63"
    and res: "obtainAllocations c rt hash rplMin rplMax cur cand = Return (Some A, e)"
  shows "e = None \<and>
     ((sint rplMax \<le> int (length cur) \<and> A = take (nat (sint rplMax)) (range_keys rt cur)) \<or>
      (int (length cur) < sint rplMin \<and>
       (\<exists>fa k. allocator_Allocate c hash cur cand = (fa, None) \<and>
          A = range_keys rt cur @ take (nat k) fa \<and> nat k \<le> length fa \<and>
          sint rplMin - int (length cur) \<le> k \<and> k \<le> sint rplMax - int (length cur))))"
proof -
  let ?valid = "range_keys rt cur"
  have lv: "length ?valid = length cur" using range by (rule length_range_keys)
  have small': "length ?valid < 2 ^ 63" using small lv by simp
  have w: "sint (rplMax - len ?valid) = sint rplMax - int (length cur)"
    using sint_sub_len [of rplMax ?valid] pre small' lv by simp
  have n: "sint (rplMin - len ?valid) = sint rplMin - int (length cur)"
    using sint_sub_len [of rplMin ?valid] pre small' lv by simp
  show ?thesis
  proof (cases "sint rplMax \<le> int (length cur)")
    case True
    with res w show ?thesis
      by (auto simp: obtainAllocations_def Let_def slice_to_Return split: outcome.splits)
  next
    case False
    note notover = this
    show ?thesis
    proof (cases "sint rplMin \<le> int (length cur)")
      case True
      with res w n notover show ?thesis
        by (simp add: obtainAllocations_def Let_def)
    next
      case False
      obtain fa err where al: "allocator_Allocate c hash cur cand = (fa, err)"
        by (cases "allocator_Allocate c hash cur cand")
      from res w n notover False al
      have enough: "\<not> sint (len cand) < sint rplMin - int (length cur)" and noerr: "err = None"
        by (auto simp: obtainAllocations_def Let_def split: if_splits option.splits)
      from res w n notover False al enough noerr
      have got: "\<not> sint (len fa) < sint rplMin - int (length cur)"
        and sl: "slice_to fa (minInt (rplMax - len ?valid) (len fa)) = Return (drop (length cur) A)
                 \<and> A = ?valid @ drop (length cur) A \<and> e = None"
        by (auto simp: obtainAllocations_def Let_def lv split: if_splits outcome.splits)
      let ?k = "sint (minInt (rplMax - len ?valid) (len fa))"
      from sl have k: "0 \<le> ?k" "nat ?k \<le> length fa" "drop (length cur) A = take (nat ?k) fa"
        by (simp_all add: slice_to_Return)
      have "?k = min (sint rplMax - int (length cur)) (sint (len fa))"
        by (simp add: sint_minInt w)
      with got pre have "sint rplMin - int (length cur) \<le> ?k" "?k \<le> sint rplMax - int (length cur)"
        by simp_all
      with k sl al noerr False show ?thesis by auto
    qed
  qed
qed

text \<open>
  Every peer of a returned list is a key of the map of current-valid metrics or was
  returned by the allocator.
\<close>

lemma obtainAllocations_members:
  assumes range: "\<And>ks. mset (map_range rt ks) = mset ks"
    and res: "obtainAllocations c rt hash rplMin rplMax cur cand = Return (Some A, e)"
  shows "set A \<subseteq> fst ` set cur \<union> set (fst (allocator_Allocate c hash cur cand))"
proof -
  have sv: "set (range_keys rt cur) = fst ` set cur" using range by (rule set_range_keys)
  have t: "set (take n xs) \<subseteq> set xs" for n and xs :: "peer list" by (rule set_take_subset)
  from res show ?thesis
    using t sv
    by (fastforce simp: obtainAllocations_def Let_def slice_to_Return
          split: if_splits outcome.splits prod.splits option.splits)
qed

text \<open>
  Two runs of \<open>obtainAllocations\<close> on the same maps that differ only in the order in
  which the maps are ranged over.
\<close>

lemma obtainAllocations_two_orders:
  assumes r1: "\<And>ks. mset (map_range rt ks) = mset ks"
    and r2: "\<And>ks. mset (order' ks) = mset ks"
  shows "case obtainAllocations c rt hash rplMin rplMax cur cand of
           Panic \<Rightarrow> obtainAllocations c (rt\<lparr>map_range := order'\<rparr>) hash rplMin rplMax cur cand = Panic
         | Return (r, e) \<Rightarrow>
             (\<exists>r'. obtainAllocations c (rt\<lparr>map_range := order'\<rparr>) hash rplMin rplMax cur cand =
                      Return (r', e) \<and>
                    map_option length r' = map_option length r)"
proof -
  let ?rt' = "rt\<lparr>map_range := order'\<rparr>"
  let ?v = "range_keys rt cur" and ?v' = "range_keys ?rt' cur"
  let ?needed = "rplMin - len cur" and ?wanted = "rplMax - len cur"
  have r2': "\<And>ks. mset (map_range ?rt' ks) = mset ks" using r2 by simp
  have lv: "length ?v = length cur" using r1 by (rule length_range_keys)
  have lv': "length ?v' = length cur" using r2' by (rule length_range_keys)
  have nv: "len ?v = len cur" using r1 by (rule len_range_keys)
  have nv': "len ?v' = len cur" using r2' by (rule len_range_keys)
  have ae: "allocationError hash n w (range_keys ?rt' cand) =
            allocationError hash n w (range_keys rt cand)" for n w
    by (rule allocationError_len) (simp add: len_range_keys [OF r1] len_range_keys [OF r2'])
  consider (shrink) "sint ?wanted \<le> 0"
    | (keep) "\<not> sint ?wanted \<le> 0" "sint ?needed \<le> 0"
    | (few) "\<not> sint ?wanted \<le> 0" "\<not> sint ?needed \<le> 0" "sint (len cand) < sint ?needed"
    | (rank) "\<not> sint ?wanted \<le> 0" "\<not> sint ?needed \<le> 0" "\<not> sint (len cand) < sint ?needed"
    by blast
  then show ?thesis
  proof cases
    case shrink
    then have "obtainAllocations c rt hash rplMin rplMax cur cand =
        (case slice_to ?v rplMax of Panic \<Rightarrow> Panic | Return d \<Rightarrow> Return (Some d, None))"
      and "obtainAllocations c ?rt' hash rplMin rplMax cur cand =
        (case slice_to ?v' rplMax of Panic \<Rightarrow> Panic | Return d \<Rightarrow> Return (Some d, None))"
      by (simp_all add: obtainAllocations_def Let_def nv nv')
    then show ?thesis by (simp add: slice_to_def lv lv')
  next
    case keep
    then show ?thesis by (simp add: obtainAllocations_def Let_def nv nv')
  next
    case few
    then show ?thesis by (simp add: obtainAllocations_def Let_def nv nv' ae)
  next
    case rank
    obtain fa err where al: "allocator_Allocate c hash cur cand = (fa, err)"
      by (cases "allocator_Allocate c hash cur cand")
    show ?thesis
    proof (cases err)
      case (Some x)
      with rank al show ?thesis by (simp add: obtainAllocations_def Let_def nv nv')
    next
      case None
      show ?thesis
      proof (cases "sint (len fa) < sint ?needed")
        case True
        with rank al None show ?thesis by (simp add: obtainAllocations_def Let_def nv nv')
      next
        case False
        with rank al None have "obtainAllocations c rt hash rplMin rplMax cur cand =
            (case slice_to fa (minInt ?wanted (len fa)) of Panic \<Rightarrow> Panic
             | Return ch \<Rightarrow> Return (Some (?v @ ch), None))"
          and "obtainAllocations c ?rt' hash rplMin rplMax cur cand =
            (case slice_to fa (minInt ?wanted (len fa)) of Panic \<Rightarrow> Panic
             | Return ch \<Rightarrow> Return (Some (?v' @ ch), None))"
          by (simp_all add: obtainAllocations_def Let_def nv nv')
        then show ?thesis by (simp add: lv lv' split: outcome.splits)
      qed
    qed
  qed
qed

text \<open>
  What \<open>allocate\<close> returns while the number of current-valid peers lies between
  \<open>rplMin\<close> and \<open>rplMax\<close>: nothing below \<open>rplMax\<close>, and the whole list of
  current-valid peers at \<open>rplMax\<close>, where the test \<^verbatim>\<open>wanted <= 0\<close> comes first.
\<close>

lemma allocate_between_bounds:
  assumes range: "\<And>ks. mset (map_range rt ks) = mset ks"
    and pre: "0 < sint rplMin" "sint rplMin \<le> sint rplMax"
    and fetch: "getInformerMetrics c = (metrics, None)"
    and small: "length metrics < 2 ^ 63"
    and split: "divide rt blacklist (getCurrentAllocations c hash) metrics ([], []) = Return (cur, cand)"
    and lower: "sint rplMin \<le> int (length cur)"
    and upper: "int (length cur) \<le> sint rplMax"
  shows "allocate c rt hash rplMin rplMax blacklist =
           (if int (length cur) = sint rplMax then Return (Some (range_keys rt cur), None)
            else Return (None, None))"
proof -
  let ?valid = "range_keys rt cur"
  have lv: "length ?valid = length cur" using range by (rule length_range_keys)
  from divide_length [OF split] small have sc: "length ?valid < 2 ^ 63" by (simp add: lv)
  have w: "sint (rplMax - len ?valid) = sint rplMax - int (length cur)"
    using sint_sub_len [of rplMax ?valid] pre sc lv by simp
  have n: "sint (rplMin - len ?valid) = sint rplMin - int (length cur)"
    using sint_sub_len [of rplMin ?valid] pre sc lv by simp
  have "obtainAllocations c rt hash rplMin rplMax cur cand =
          (if int (length cur) = sint rplMax then Return (Some ?valid, None)
           else Return (None, None))"
  proof (cases "int (length cur) = sint rplMax")
    case True
    then have "nat (sint rplMax) = length cur" by simp
    with True lv show ?thesis
      by (simp add: obtainAllocations_def Let_def w n slice_to_def)
  next
    case False
    with lower upper show ?thesis
      by (simp add: obtainAllocations_def Let_def w n)
  qed
  then show ?thesis using allocate_fetched [OF fetch split] by simp
qed

text \<open>
  The order in which a call ranges over its maps does not change how it ends: another
  order gives a panic for a panic, the same error, nil for nil, and a list of the same
  length for a list.
\<close>

lemma allocate_range_order:
  assumes r1: "\<And>ks. mset (map_range rt ks) = mset ks"
    and r2: "\<And>ks. mset (order' ks) = mset ks"
  shows "case allocate c rt hash rplMin rplMax blacklist of
           Panic \<Rightarrow> allocate c (rt\<lparr>map_range := order'\<rparr>) hash rplMin rplMax blacklist = Panic
         | Return (r, e) \<Rightarrow>
             (\<exists>r'. allocate c (rt\<lparr>map_range := order'\<rparr>) hash rplMin rplMax blacklist =
                      Return (r', e) \<and>
                    map_option length r' = map_option length r \<and>
                    (r' = None \<longleftrightarrow> r = None))"
proof -
  obtain metrics err where f: "getInformerMetrics c = (metrics, err)"
    by (cases "getInformerMetrics c")
  show ?thesis
  proof (cases err)
    case (Some e)
    with f show ?thesis by (simp add: allocate_def Let_def)
  next
    case None
    show ?thesis
    proof (cases "divide rt blacklist (getCurrentAllocations c hash) metrics ([], [])")
      case Panic
      with f None show ?thesis by (simp add: allocate_def Let_def divide_map_range)
    next
      case (Return maps)
      obtain cur cand where m: "maps = (cur, cand)" by (cases maps)
      have a1: "allocate c rt hash rplMin rplMax blacklist =
                obtainAllocations c rt hash rplMin rplMax cur cand"
        using f None Return m by (simp add: allocate_def Let_def)
      have a2: "allocate c (rt\<lparr>map_range := order'\<rparr>) hash rplMin rplMax blacklist =
                obtainAllocations c (rt\<lparr>map_range := order'\<rparr>) hash rplMin rplMax cur cand"
        using f None Return m by (simp add: allocate_def Let_def divide_map_range)
      from obtainAllocations_two_orders [OF r1 r2, of c hash rplMin rplMax cur cand]
      show ?thesis unfolding a1 a2
        by (auto split: outcome.splits prod.splits)
    qed
  qed
qed

text \<open>
  A second call, made once the list \<open>A\<close> that a first call returned is the allocation
  of the pin (in a cluster \<open>c'\<close> that answers with the same metrics), for an
  allocator that returns candidates only and none twice: the map of current metrics
  then holds exactly the peers of \<open>A\<close>, and the call returns nil unless \<open>A\<close> has
  \<open>rplMax\<close> peers, where it returns them again.
\<close>

lemma allocate_after_commit:
  assumes range: "\<And>ks. mset (map_range rt ks) = mset ks"
    and pre: "0 < sint rplMin" "sint rplMin \<le> sint rplMax"
    and fetch: "getInformerMetrics c = (metrics, None)"
    and small: "length metrics < 2 ^ 63"
    and policy: "\<And>cur cand. set (fst (allocator_Allocate c hash cur cand)) \<subseteq> fst ` set cand"
    and nodup: "\<And>cur cand. distinct (fst (allocator_Allocate c hash cur cand))"
    and first: "allocate c rt hash rplMin rplMax blacklist = Return (Some A, e)"
    and fetch': "getInformerMetrics c' = (metrics, None)"
    and commit: "getCurrentAllocations c' hash = A"
  shows "\<exists>cur' cand'.
           divide rt blacklist A metrics ([], []) = Return (cur', cand') \<and>
           fst ` set cur' = set A \<and>
           allocate c' rt hash rplMin rplMax blacklist =
             (if int (length A) = sint rplMax then Return (Some (range_keys rt cur'), None)
              else Return (None, None))"
proof -
  from first obtain ms cur cand where
    f: "getInformerMetrics c = (ms, None)" and
    d0: "divide rt blacklist (getCurrentAllocations c hash) ms ([], []) = Return (cur, cand)" and
    o0: "obtainAllocations c rt hash rplMin rplMax cur cand = Return (Some A, e)"
    by (rule allocate_Return_Some)
  from f fetch have "ms = metrics" by simp
  with d0 o0 have
    d: "divide rt blacklist (getCurrentAllocations c hash) metrics ([], []) = Return (cur, cand)" and
    o: "obtainAllocations c rt hash rplMin rplMax cur cand = Return (Some A, e)"
    by simp_all
  let ?ca = "getCurrentAllocations c hash"
  let ?fa = "fst (allocator_Allocate c hash cur cand)"
  let ?valid = "range_keys rt cur"
  from divide_length [OF d] small have sc: "length cur < 2 ^ 63" by simp
  have sv: "set ?valid = fst ` set cur" using range by (rule set_range_keys)
  have lv: "length ?valid = length cur" using range by (rule length_range_keys)
  have dcur: "distinct (map fst cur)" using divide_distinct [OF d] by simp
  have dv: "distinct ?valid" using range dcur by (rule distinct_range_keys)
  \<comment> \<open>every peer of the first list is usable and not blacklisted\<close>
  have inA: "p \<notin> set blacklist \<and> (\<exists>m \<in> set metrics. Peer m = p \<and> Discard rt m = Return False)"
    if "p \<in> set A" for p
  proof -
    from obtainAllocations_members [OF range o] policy [of cur cand] that
    have "p \<in> fst ` set cur \<or> p \<in> fst ` set cand" by auto
    with divide_keys [OF d] show ?thesis by auto
  qed
  \<comment> \<open>the first list has no peer twice and lies within the bounds\<close>
  have disj: "set ?valid \<inter> set ?fa = {}"
  proof -
    from divide_keys [OF d] have "fst ` set cur \<subseteq> set ?ca" and "fst ` set cand \<inter> set ?ca = {}"
      by auto
    with policy [of cur cand] sv show ?thesis by blast
  qed
  from obtainAllocations_Some [OF range pre sc o]
  consider (shrink) "sint rplMax \<le> int (length cur)" "A = take (nat (sint rplMax)) ?valid"
    | (expand) fa k where "allocator_Allocate c hash cur cand = (fa, None)"
        "A = ?valid @ take (nat k) fa" "nat k \<le> length fa"
        "sint rplMin - int (length cur) \<le> k" "k \<le> sint rplMax - int (length cur)"
        "int (length cur) < sint rplMin"
    by blast
  then have "distinct A \<and> sint rplMin \<le> int (length A) \<and> int (length A) \<le> sint rplMax"
  proof cases
    case shrink
    with dv pre lv show ?thesis by simp
  next
    case expand
    then have fa: "fa = ?fa" by simp
    with nodup [of cur cand] have "distinct (take (nat k) fa)" by simp
    moreover have "set (take (nat k) fa) \<subseteq> set ?fa" using fa set_take_subset by metis
    ultimately have "distinct A" using expand(2) dv disj by auto
    with expand lv show ?thesis by (simp add: min_absorb2)
  qed
  then have dA: "distinct A"
    and bounds: "sint rplMin \<le> int (length A)" "int (length A) \<le> sint rplMax"
    by simp_all
  \<comment> \<open>the second call\<close>
  from divide_returns [OF d, of A "[]" "[]"] obtain cur' cand' where
    d': "divide rt blacklist A metrics ([], []) = Return (cur', cand')" by blast
  have keys': "fst ` set cur' = set A"
  proof -
    have "p \<in> Peer ` {m \<in> set metrics. Discard rt m = Return False}" if "p \<in> set A" for p
      using inA [OF that] by blast
    with divide_keys_exact [OF d'] inA show ?thesis by auto
  qed
  have "distinct (map fst cur')" using divide_distinct [OF d'] by simp
  then have "length cur' = card (fst ` set cur')"
    using distinct_card [of "map fst cur'"] by simp
  also have "\<dots> = length A" using keys' dA by (simp add: distinct_card)
  finally have len': "length cur' = length A" .
  from d' commit have split': "divide rt blacklist (getCurrentAllocations c' hash) metrics ([], []) =
      Return (cur', cand')" by simp
  from allocate_between_bounds [OF range pre fetch' small split'] bounds len'
  have "allocate c' rt hash rplMin rplMax blacklist =
          (if int (length A) = sint rplMax then Return (Some (range_keys rt cur'), None)
           else Return (None, None))"
    by simp
  with d' keys' show ?thesis by blast
qed

section \<open>Properties\<close>

subsection \<open>C1: no rewrite within the bounds\<close>

text \<open>
  C1 says that \<open>allocate\<close> returns nil and no error whenever
  \<open>rplMin \<le> nCur \<le> rplMax\<close>, also at \<open>nCur = rplMax\<close>. The code at that boundary:
  with the two allocated peers P1 and P2 both usable, \<open>rplMin = 1\<close> and \<open>rplMax = 2\<close>,
  \<open>wanted\<close> is 0, the branch commented "allocations above maximum threshold: drop some"
  is taken, and the call returns the list of both peers instead of nil.
\<close>

theorem allocate_at_rplMax:
  "allocate (scenario_cluster [''P1'', ''P2''] [usable_metric ''P1'', usable_metric ''P2''] [])
      scenario_runtime (Some ''QmC'') 1 2 [] = Return (Some [''P1'', ''P2''], None)"
  by (simp add: allocate_defs scenario_defs)

subsection \<open>C2: Metric.Expired\<close>

text \<open>
  C2, as the code has it: \<open>Expired\<close> returns true exactly when no expiry is set, or
  the expiry parses and the clock reads strictly later than it. It returns false
  exactly when the expiry parses and the clock reads that instant or an earlier one,
  and panics exactly when an expiry is set that does not parse.
\<close>

theorem Expired_iff:
  "(Expired rt m = Return True \<longleftrightarrow>
      Expire m = [] \<or>
      (snd (time_Parse rt RFC3339Nano (Expire m)) = None \<and>
       fst (time_Parse rt RFC3339Nano (Expire m)) < time_Now rt)) \<and>
   (Expired rt m = Return False \<longleftrightarrow>
      Expire m \<noteq> [] \<and> snd (time_Parse rt RFC3339Nano (Expire m)) = None \<and>
      time_Now rt \<le> fst (time_Parse rt RFC3339Nano (Expire m))) \<and>
   (Expired rt m = Panic \<longleftrightarrow>
      Expire m \<noteq> [] \<and> snd (time_Parse rt RFC3339Nano (Expire m)) \<noteq> None)"
proof (cases "Expire m = []")
  case True
  then show ?thesis by (simp add: Expired_def)
next
  case False
  obtain exp err where p: "time_Parse rt RFC3339Nano (Expire m) = (exp, err)"
    by (cases "time_Parse rt RFC3339Nano (Expire m)")
  with False show ?thesis
    by (cases err) (auto simp: Expired_def After_def)
qed

text \<open>
  An expired metric, a usable one, and one whose expiry is no timestamp.
\<close>

theorem Expired_iff_witness:
  "Expired scenario_runtime (expired_metric ''P1'') = Return True \<and>
   Expired scenario_runtime (usable_metric ''P1'') = Return False \<and>
   Expired scenario_runtime ((usable_metric ''P1'')\<lparr>Expire := ''tomorrow''\<rparr>) = Panic"
  using Expired_iff [of scenario_runtime "expired_metric ''P1''"]
        Expired_iff [of scenario_runtime "usable_metric ''P1''"]
        Expired_iff [of scenario_runtime "(usable_metric ''P1'')\<lparr>Expire := ''tomorrow''\<rparr>"]
  by (simp add: scenario_defs RFC3339Nano_def)

text \<open>
  C2 as stated fails at a metric whose expiry is the current instant: \<open>Expired\<close>
  returns false there.
\<close>

theorem Expired_at_expiry_counterexample:
  "Expired scenario_runtime (expiring_metric ''P1'') = Return False \<and>
   fst (time_Parse scenario_runtime RFC3339Nano (Expire (expiring_metric ''P1''))) =
     time_Now scenario_runtime"
  by (simp add: Expired_def After_def scenario_defs expiring_metric_def)

subsection \<open>C3: the error for insufficient candidates\<close>

text \<open>
  C3, as the code has it: when \<open>need > 0\<close> and fewer than \<open>need\<close> candidates are
  valid, or the allocator ranks fewer than \<open>need\<close> peers, \<open>allocate\<close> returns nil and
  an error whose message holds the needed count, the wanted count and the number of
  valid candidates (of ranked peers in the second case), and nothing else of the call.
\<close>

theorem allocate_insufficient_candidates:
  assumes range: "\<And>ks. mset (map_range rt ks) = mset ks"
    and pre: "0 < sint rplMin" "sint rplMin \<le> sint rplMax"
    and fetch: "getInformerMetrics c = (metrics, None)"
    and small: "length metrics < 2 ^ 63"
    and split: "divide rt blacklist (getCurrentAllocations c hash) metrics ([], []) = Return (cur, cand)"
    and need: "int (length cur) < sint rplMin"
  shows "(int (length cand) < sint rplMin - int (length cur) \<longrightarrow>
            allocate c rt hash rplMin rplMax blacklist =
              Return (None, Some (Error
                (''not enough peers to allocate CID. Needed at least: '' @
                 Sprintf_d (sint rplMin - int (length cur)) @ ''. Wanted at most: '' @
                 Sprintf_d (sint rplMax - int (length cur)) @ ''. Valid candidates: '' @
                 Sprintf_d (int (length cand)) @ ''. See logs for more info.'')))) \<and>
         (sint rplMin - int (length cur) \<le> int (length cand) \<and>
          allocator_Allocate c hash cur cand = (ranked, None) \<and> length ranked < 2 ^ 63 \<and>
          int (length ranked) < sint rplMin - int (length cur) \<longrightarrow>
            allocate c rt hash rplMin rplMax blacklist =
              Return (None, Some (Error
                (''not enough peers to allocate CID. Needed at least: '' @
                 Sprintf_d (sint rplMin - int (length cur)) @ ''. Wanted at most: '' @
                 Sprintf_d (sint rplMax - int (length cur)) @ ''. Valid candidates: '' @
                 Sprintf_d (int (length ranked)) @ ''. See logs for more info.''))))"
proof -
  let ?valid = "range_keys rt cur"
  have lv: "length ?valid = length cur" using range by (rule length_range_keys)
  have lc: "length (range_keys rt cand) = length cand" using range by (rule length_range_keys)
  from divide_length [OF split] small
  have sc: "length ?valid < 2 ^ 63" and sd: "length cand < 2 ^ 63" by (simp_all add: lv)
  have sd': "length (range_keys rt cand) < 2 ^ 63" using sd lc by simp
  have w: "sint (rplMax - len ?valid) = sint rplMax - int (length cur)"
    using sint_sub_len [of rplMax ?valid] pre sc lv by simp
  have n: "sint (rplMin - len ?valid) = sint rplMin - int (length cur)"
    using sint_sub_len [of rplMin ?valid] pre sc lv by simp
  have few: "obtainAllocations c rt hash rplMin rplMax cur cand =
          Return (None, Some (allocationError hash (rplMin - len ?valid) (rplMax - len ?valid)
             (range_keys rt cand)))"
    if "int (length cand) < sint rplMin - int (length cur)"
    using that pre need
    by (simp add: obtainAllocations_def Let_def w n sint_len [OF sd])
  have vetoed: "obtainAllocations c rt hash rplMin rplMax cur cand =
          Return (None, Some (allocationError hash (rplMin - len ?valid) (rplMax - len ?valid) ranked))"
    if "sint rplMin - int (length cur) \<le> int (length cand)"
      and "allocator_Allocate c hash cur cand = (ranked, None)"
      and rsmall: "length ranked < 2 ^ 63"
      and "int (length ranked) < sint rplMin - int (length cur)"
    using that pre need
    by (simp add: obtainAllocations_def Let_def w n sint_len [OF sd] sint_len [OF rsmall])
  show ?thesis
  proof (intro conjI impI)
    assume "int (length cand) < sint rplMin - int (length cur)"
    from few [OF this] show "allocate c rt hash rplMin rplMax blacklist =
        Return (None, Some (Error
          (''not enough peers to allocate CID. Needed at least: '' @
           Sprintf_d (sint rplMin - int (length cur)) @ ''. Wanted at most: '' @
           Sprintf_d (sint rplMax - int (length cur)) @ ''. Valid candidates: '' @
           Sprintf_d (int (length cand)) @ ''. See logs for more info.'')))"
      using allocate_fetched [OF fetch split]
      by (simp add: allocationError_def w n sint_len [OF sd'] lc)
  next
    assume a: "sint rplMin - int (length cur) \<le> int (length cand) \<and>
      allocator_Allocate c hash cur cand = (ranked, None) \<and> length ranked < 2 ^ 63 \<and>
      int (length ranked) < sint rplMin - int (length cur)"
    then have rsmall: "length ranked < 2 ^ 63" by simp
    from a vetoed show "allocate c rt hash rplMin rplMax blacklist =
        Return (None, Some (Error
          (''not enough peers to allocate CID. Needed at least: '' @
           Sprintf_d (sint rplMin - int (length cur)) @ ''. Wanted at most: '' @
           Sprintf_d (sint rplMax - int (length cur)) @ ''. Valid candidates: '' @
           Sprintf_d (int (length ranked)) @ ''. See logs for more info.'')))"
      using allocate_fetched [OF fetch split]
      by (simp add: allocationError_def w n sint_len [OF rsmall])
  qed
qed

text \<open>
  Both cases on examples: one usable peer where two are needed; and two usable
  candidates of which the allocator ranks one only.
\<close>

theorem allocate_insufficient_candidates_witness:
  "allocate (scenario_cluster [] [usable_metric ''P1''] []) scenario_runtime (Some ''QmC'') 2 3 [] =
     Return (None, Some (Error ''not enough peers to allocate CID. Needed at least: 2. Wanted at most: 3. Valid candidates: 1. See logs for more info.'')) \<and>
   allocate (scenario_cluster [] [usable_metric ''P1'', usable_metric ''P2''] [''P2''])
       scenario_runtime (Some ''QmC'') 2 3 [] =
     Return (None, Some (Error ''not enough peers to allocate CID. Needed at least: 2. Wanted at most: 3. Valid candidates: 1. See logs for more info.''))"
proof -
  let ?c1 = "scenario_cluster [] [usable_metric ''P1''] []"
  let ?c2 = "scenario_cluster [] [usable_metric ''P1'', usable_metric ''P2''] [''P2'']"
  let ?cand1 = "[(''P1'', usable_metric ''P1'')]"
  let ?cand2 = "[(''P1'', usable_metric ''P1''), (''P2'', usable_metric ''P2'')]"
  have pre: "0 < sint (2 :: goint)" "sint (2 :: goint) \<le> sint (3 :: goint)" by simp_all
  have f1: "getInformerMetrics ?c1 = ([usable_metric ''P1''], None)"
    by (simp add: getInformerMetrics_def scenario_cluster_def)
  have d1: "divide scenario_runtime [] (getCurrentAllocations ?c1 (Some ''QmC''))
              [usable_metric ''P1''] ([], []) = Return ([], ?cand1)"
    by (simp add: allocate_defs scenario_defs)
  have f2: "getInformerMetrics ?c2 = ([usable_metric ''P1'', usable_metric ''P2''], None)"
    by (simp add: getInformerMetrics_def scenario_cluster_def)
  have d2: "divide scenario_runtime [] (getCurrentAllocations ?c2 (Some ''QmC''))
              [usable_metric ''P1'', usable_metric ''P2''] ([], []) = Return ([], ?cand2)"
    by (simp add: allocate_defs scenario_defs)
  have a2: "allocator_Allocate ?c2 (Some ''QmC'') [] ?cand2 = ([''P2''], None)"
    by (simp add: scenario_cluster_def)
  from allocate_insufficient_candidates [OF scenario_range pre f1 _ d1, of "[]"]
       allocate_insufficient_candidates [OF scenario_range pre f2 _ d2, of "[''P2'']"] a2
  show ?thesis by (simp add: Sprintf_d_def digits.simps)
qed

text \<open>
  C3 as stated fails: two calls for different CIDs, with different valid candidates,
  return errors with the very same message, so the error holds neither the CID nor
  the list of candidates.
\<close>

theorem allocationError_counterexample:
  "allocate (scenario_cluster [] [usable_metric ''P1''] []) scenario_runtime (Some ''QmA'') 2 3 [] =
     Return (None, Some (Error ''not enough peers to allocate CID. Needed at least: 2. Wanted at most: 3. Valid candidates: 1. See logs for more info.'')) \<and>
   allocate (scenario_cluster [] [usable_metric ''P2''] []) scenario_runtime (Some ''QmB'') 2 3 [] =
     Return (None, Some (Error ''not enough peers to allocate CID. Needed at least: 2. Wanted at most: 3. Valid candidates: 1. See logs for more info.''))"
  by (simp add: allocate_defs scenario_defs)

subsection \<open>C4: calling allocate twice\<close>

text \<open>
  C4 says that a second call of \<open>allocate\<close>, made once the list of the first is the
  allocation of the pin and with the metrics unchanged, returns nil. The code where the
  first list has \<open>rplMax\<close> peers: with no peer allocated, five usable candidates and
  between two and three wanted, the first call returns three peers; with these three
  allocated, \<open>wanted\<close> is 0, the test \<^verbatim>\<open>wanted <= 0\<close> holds, and the second call
  returns the three peers again instead of nil. Likewise after a first call that
  drops two of four allocated peers where two are wanted at most.
\<close>

theorem allocate_twice_committed:
  "allocate (scenario_cluster [] (map usable_metric [''P1'', ''P2'', ''P3'', ''P4'', ''P5''])
        [''P3'', ''P1'', ''P5'', ''P2'', ''P4''])
      scenario_runtime (Some ''QmC'') 2 3 [] = Return (Some [''P3'', ''P1'', ''P5''], None) \<and>
   allocate (scenario_cluster [''P3'', ''P1'', ''P5'']
        (map usable_metric [''P1'', ''P2'', ''P3'', ''P4'', ''P5''])
        [''P3'', ''P1'', ''P5'', ''P2'', ''P4''])
      scenario_runtime (Some ''QmC'') 2 3 [] = Return (Some [''P1'', ''P3'', ''P5''], None) \<and>
   allocate (scenario_cluster [''P1'', ''P2'', ''P3'', ''P4'']
        (map usable_metric [''P1'', ''P2'', ''P3'', ''P4'']) [])
      scenario_runtime (Some ''QmC'') 1 2 [] = Return (Some [''P1'', ''P2''], None) \<and>
   allocate (scenario_cluster [''P1'', ''P2'']
        (map usable_metric [''P1'', ''P2'', ''P3'', ''P4'']) [])
      scenario_runtime (Some ''QmC'') 1 2 [] = Return (Some [''P1'', ''P2''], None)"
  by (simp add: allocate_defs scenario_defs)

text \<open>
  Where the first list stays below \<open>rplMax\<close> the second call does return nil: two
  usable candidates, between one and three wanted.
\<close>

lemma allocate_twice_committed_short:
  "allocate (scenario_cluster [] (map usable_metric [''P1'', ''P2'']) [''P2'', ''P1''])
      scenario_runtime (Some ''QmC'') 1 3 [] = Return (Some [''P2'', ''P1''], None) \<and>
   allocate (scenario_cluster [''P2'', ''P1''] (map usable_metric [''P1'', ''P2'']) [''P2'', ''P1''])
      scenario_runtime (Some ''QmC'') 1 3 [] = Return (None, None)"
  by (simp add: allocate_defs scenario_defs)

subsection \<open>C5: the length of a returned list\<close>

text \<open>
  C5. Under the precondition \<open>allocate\<close> documents (\<open>0 < rplMin \<le> rplMax\<close>), with
  fewer than \<open>2^63\<close> metrics as any Go slice has, a list that \<open>allocate\<close> returns has
  at most \<open>rplMax\<close> and at least \<open>rplMin\<close> entries. The lower bound holds without the
  exception the claim allows: where too few usable peers exist, an error is returned
  and no list.
\<close>

theorem allocate_length_bounds:
  assumes range: "\<And>ks. mset (map_range rt ks) = mset ks"
    and pre: "0 < sint rplMin" "sint rplMin \<le> sint rplMax"
    and small: "length (fst (getInformerMetrics c)) < 2 ^ 63"
    and res: "allocate c rt hash rplMin rplMax blacklist = Return (Some A, e)"
  shows "int (length A) \<le> sint rplMax \<and> sint rplMin \<le> int (length A)"
proof -
  from res obtain metrics cur cand where
    f: "getInformerMetrics c = (metrics, None)" and
    d: "divide rt blacklist (getCurrentAllocations c hash) metrics ([], []) = Return (cur, cand)" and
    o: "obtainAllocations c rt hash rplMin rplMax cur cand = Return (Some A, e)"
    by (rule allocate_Return_Some)
  from divide_length [OF d] f small have sc: "length cur < 2 ^ 63" by simp
  have lv: "length (range_keys rt cur) = length cur" using range by (rule length_range_keys)
  from obtainAllocations_Some [OF range pre sc o]
  consider (shrink) "sint rplMax \<le> int (length cur)" "A = take (nat (sint rplMax)) (range_keys rt cur)"
    | (expand) fa k where "A = range_keys rt cur @ take (nat k) fa" "nat k \<le> length fa"
        "sint rplMin - int (length cur) \<le> k" "k \<le> sint rplMax - int (length cur)"
        "int (length cur) < sint rplMin"
    by blast
  then show ?thesis
  proof cases
    case shrink
    with pre lv show ?thesis by simp
  next
    case expand
    with lv show ?thesis by (simp add: min_absorb2)
  qed
qed

text \<open>
  No peer allocated, five usable candidates, between two and three wanted.
\<close>

theorem allocate_length_bounds_witness:
  "allocate (scenario_cluster [] (map usable_metric [''P1'', ''P2'', ''P3'', ''P4'', ''P5''])
        [''P3'', ''P1'', ''P5'', ''P2'', ''P4''])
      scenario_runtime (Some ''QmC'') 2 3 [] = Return (Some [''P3'', ''P1'', ''P5''], None) \<and>
   int (length [''P3'', ''P1'', ''P5'']) \<le> sint (3 :: goint) \<and>
   sint (2 :: goint) \<le> int (length [''P3'', ''P1'', ''P5''])"
proof -
  let ?c = "scenario_cluster [] (map usable_metric [''P1'', ''P2'', ''P3'', ''P4'', ''P5''])
              [''P3'', ''P1'', ''P5'', ''P2'', ''P4'']"
  have res: "allocate ?c scenario_runtime (Some ''QmC'') 2 3 [] =
               Return (Some [''P3'', ''P1'', ''P5''], None)"
    by (simp add: allocate_defs scenario_defs)
  have small: "length (fst (getInformerMetrics ?c)) < 2 ^ 63"
    by (simp add: getInformerMetrics_def scenario_cluster_def)
  have pre: "0 < sint (2 :: goint)" "sint (2 :: goint) \<le> sint (3 :: goint)" by simp_all
  from allocate_length_bounds [OF scenario_range pre small res] res show ?thesis by simp
qed

subsection \<open>C6: the expand branch\<close>

text \<open>
  C6. Let \<open>0 < rplMin \<le> rplMax\<close>, \<open>need = rplMin - nCur > 0\<close>, at least \<open>need\<close>
  valid candidates (so that the allocator is reached), and let the allocator return
  \<open>ranked\<close> with at least \<open>need\<close> peers. Then \<open>allocate\<close> returns the current-valid
  peers followed by the first \<open>min(want, |ranked|)\<close> entries of \<open>ranked\<close>, and no error.
\<close>

theorem allocate_expand:
  assumes range: "\<And>ks. mset (map_range rt ks) = mset ks"
    and pre: "0 < sint rplMin" "sint rplMin \<le> sint rplMax"
    and fetch: "getInformerMetrics c = (metrics, None)"
    and small: "length metrics < 2 ^ 63"
    and split: "divide rt blacklist (getCurrentAllocations c hash) metrics ([], []) = Return (cur, cand)"
    and need: "int (length cur) < sint rplMin"
    and reach: "sint rplMin - int (length cur) \<le> int (length cand)"
    and ranked: "allocator_Allocate c hash cur cand = (ranked, None)"
    and rsmall: "length ranked < 2 ^ 63"
    and enough: "sint rplMin - int (length cur) \<le> int (length ranked)"
  shows "allocate c rt hash rplMin rplMax blacklist =
           Return (Some (range_keys rt cur @
                         take (nat (min (sint rplMax - int (length cur)) (int (length ranked)))) ranked),
                   None)"
proof -
  let ?valid = "range_keys rt cur"
  have lv: "length ?valid = length cur" using range by (rule length_range_keys)
  from divide_length [OF split] small
  have sc: "length ?valid < 2 ^ 63" and sd: "length cand < 2 ^ 63" by (simp_all add: lv)
  have w: "sint (rplMax - len ?valid) = sint rplMax - int (length cur)"
    using sint_sub_len [of rplMax ?valid] pre sc lv by simp
  have n: "sint (rplMin - len ?valid) = sint rplMin - int (length cur)"
    using sint_sub_len [of rplMin ?valid] pre sc lv by simp
  have k: "sint (minInt (rplMax - len ?valid) (len ranked)) =
             min (sint rplMax - int (length cur)) (int (length ranked))"
    by (simp add: sint_minInt w sint_len [OF rsmall])
  have sl: "slice_to ranked (minInt (rplMax - len ?valid) (len ranked)) =
              Return (take (nat (min (sint rplMax - int (length cur)) (int (length ranked)))) ranked)"
    using pre need by (simp add: slice_to_def k)
  have "obtainAllocations c rt hash rplMin rplMax cur cand =
          Return (Some (?valid @
                    take (nat (min (sint rplMax - int (length cur)) (int (length ranked)))) ranked),
                  None)"
    using pre need reach enough
    by (simp add: obtainAllocations_def Let_def w n ranked sl sint_len [OF rsmall] sint_len [OF sd])
  then show ?thesis using allocate_fetched [OF fetch split] by simp
qed

text \<open>
  Two allocated peers of which one has an expired metric, three wanted: the usable
  one is kept in front, followed by the allocator's first two.
\<close>

theorem allocate_expand_witness:
  "allocate (scenario_cluster [''P1'', ''P2'']
        [usable_metric ''P1'', expired_metric ''P2'', usable_metric ''P3'', usable_metric ''P4'',
         usable_metric ''P5'']
        [''P4'', ''P3'', ''P5''])
      scenario_runtime (Some ''QmC'') 3 3 [] = Return (Some [''P1'', ''P4'', ''P3''], None)"
proof -
  let ?ms = "[usable_metric ''P1'', expired_metric ''P2'', usable_metric ''P3'',
              usable_metric ''P4'', usable_metric ''P5'']"
  let ?c = "scenario_cluster [''P1'', ''P2''] ?ms [''P4'', ''P3'', ''P5'']"
  let ?cur = "[(''P1'', usable_metric ''P1'')]"
  let ?cand = "[(''P3'', usable_metric ''P3''), (''P4'', usable_metric ''P4''),
                (''P5'', usable_metric ''P5'')]"
  have fetch: "getInformerMetrics ?c = (?ms, None)"
    by (simp add: getInformerMetrics_def scenario_cluster_def)
  have small: "length ?ms < 2 ^ 63" by simp
  have split: "divide scenario_runtime [] (getCurrentAllocations ?c (Some ''QmC'')) ?ms ([], []) =
                 Return (?cur, ?cand)"
    by (simp add: allocate_defs scenario_defs)
  have ranked: "allocator_Allocate ?c (Some ''QmC'') ?cur ?cand = ([''P4'', ''P3'', ''P5''], None)"
    by (simp add: scenario_cluster_def)
  have pre: "0 < sint (3 :: goint)" "sint (3 :: goint) \<le> sint (3 :: goint)" by simp_all
  have "allocate ?c scenario_runtime (Some ''QmC'') 3 3 [] =
          Return (Some (range_keys scenario_runtime ?cur @
                    take (nat (min (sint (3 :: goint) - int (length ?cur))
                                   (int (length [''P4'', ''P3'', ''P5''])))) [''P4'', ''P3'', ''P5'']),
                  None)"
    by (rule allocate_expand [OF scenario_range pre fetch small split _ _ ranked]) simp_all
  then show ?thesis by (simp add: range_keys_def scenario_runtime_def)
qed

subsection \<open>C7: no blacklisted and no discarded peer\<close>

text \<open>
  C7. Let the allocator return candidates only. Then no peer of a returned list is
  blacklisted, and every one has a metric in the snapshot that is not discarded. On a
  snapshot that holds at most one metric for each peer, as the monitor's last metrics
  do, no peer of the list has a discarded metric: every metric of the peer is neither
  invalid nor expired.
\<close>

theorem allocate_peers_usable:
  assumes range: "\<And>ks. mset (map_range rt ks) = mset ks"
    and policy: "\<And>cur cand. set (fst (allocator_Allocate c hash cur cand)) \<subseteq> fst ` set cand"
    and fetch: "getInformerMetrics c = (metrics, None)"
    and res: "allocate c rt hash rplMin rplMax blacklist = Return (Some A, e)"
    and p: "p \<in> set A"
  shows "p \<notin> set blacklist \<and>
         (\<exists>m \<in> set metrics. Peer m = p \<and> Discard rt m = Return False) \<and>
         (distinct (map Peer metrics) \<longrightarrow>
            (\<forall>m \<in> set metrics. Peer m = p \<longrightarrow> Discard rt m = Return False))"
proof -
  from res fetch obtain cur cand where
    d: "divide rt blacklist (getCurrentAllocations c hash) metrics ([], []) = Return (cur, cand)" and
    o: "obtainAllocations c rt hash rplMin rplMax cur cand = Return (Some A, e)"
    by (auto elim!: allocate_Return_Some)
  from obtainAllocations_members [OF range o] policy [of cur cand] p
  have "p \<in> fst ` set cur \<or> p \<in> fst ` set cand" by auto
  with divide_keys [OF d]
  have nb: "p \<notin> set blacklist"
    and ex: "\<exists>m \<in> set metrics. Peer m = p \<and> Discard rt m = Return False"
    by auto
  have "Discard rt m = Return False" if dist: "distinct (map Peer metrics)"
    and m: "m \<in> set metrics" "Peer m = p" for m
  proof -
    from ex obtain m' where m': "m' \<in> set metrics" "Peer m' = p" "Discard rt m' = Return False"
      by blast
    from dist have "inj_on Peer (set metrics)" by (simp add: distinct_map)
    with m m' have "m = m'" by (auto dest: inj_onD)
    with m' show ?thesis by simp
  qed
  with nb ex show ?thesis by blast
qed

text \<open>
  P2 is allocated but its metric has expired, P3 is blacklisted, two peers are wanted:
  the list is P1 and P4, and P4 is not blacklisted and has no discarded metric.
\<close>

theorem allocate_peers_usable_witness:
  "allocate (scenario_cluster [''P2'']
        [usable_metric ''P1'', expired_metric ''P2'', usable_metric ''P3'', usable_metric ''P4'']
        [''P1'', ''P2'', ''P3'', ''P4''])
      scenario_runtime (Some ''QmC'') 2 2 [''P3''] = Return (Some [''P1'', ''P4''], None) \<and>
   ''P4'' \<notin> set [''P3''] \<and>
   \<not> (\<exists>m \<in> set [usable_metric ''P1'', expired_metric ''P2'', usable_metric ''P3'',
                    usable_metric ''P4''].
          Peer m = ''P4'' \<and> Discard scenario_runtime m = Return True)"
proof -
  let ?ms = "[usable_metric ''P1'', expired_metric ''P2'', usable_metric ''P3'',
              usable_metric ''P4'']"
  let ?c = "scenario_cluster [''P2''] ?ms [''P1'', ''P2'', ''P3'', ''P4'']"
  have policy: "set (fst (allocator_Allocate ?c (Some ''QmC'') cur cand)) \<subseteq> fst ` set cand"
    for cur cand
    by (auto simp: scenario_cluster_def containsPeer_iff)
  have fetch: "getInformerMetrics ?c = (?ms, None)"
    by (simp add: getInformerMetrics_def scenario_cluster_def)
  have res: "allocate ?c scenario_runtime (Some ''QmC'') 2 2 [''P3''] =
               Return (Some [''P1'', ''P4''], None)"
    by (simp add: allocate_defs scenario_defs)
  have p: "''P4'' \<in> set [''P1'', ''P4'']" by simp
  have one: "distinct (map Peer ?ms)" by (simp add: usable_metric_def expired_metric_def)
  from allocate_peers_usable [OF scenario_range policy fetch res p] one
  have "''P4'' \<notin> set [''P3'']"
    and "\<forall>m \<in> set ?ms. Peer m = ''P4'' \<longrightarrow> Discard scenario_runtime m = Return False"
    by blast+
  with res show ?thesis by auto
qed

subsection \<open>C8: no leader\<close>

text \<open>
  C8. If \<^verbatim>\<open>c.consensus.Leader()\<close> returns an error, \<open>getInformerMetrics\<close> returns
  nil and the error "cannot determine leading Monitor", and \<open>allocate\<close> returns nil
  and that error.
\<close>

theorem allocate_no_leader:
  assumes "consensus_Leader c = (l, Some err)"
  shows "getInformerMetrics c = ([], Some (Error ''cannot determine leading Monitor'')) \<and>
         allocate c rt hash rplMin rplMax blacklist =
           Return (None, Some (Error ''cannot determine leading Monitor''))"
  using assms by (simp add: getInformerMetrics_def allocate_def Let_def)

text \<open>
  A cluster that has elected no leader.
\<close>

theorem allocate_no_leader_witness:
  "allocate
     ((scenario_cluster [] [usable_metric ''P1'', usable_metric ''P2''] [''P1'', ''P2''])
        \<lparr>consensus_Leader := ([], Some (Error ''no leader elected''))\<rparr>)
     scenario_runtime (Some ''QmC'') 1 2 [] =
   Return (None, Some (Error ''cannot determine leading Monitor''))"
proof -
  let ?c = "(scenario_cluster [] [usable_metric ''P1'', usable_metric ''P2''] [''P1'', ''P2''])
              \<lparr>consensus_Leader := ([], Some (Error ''no leader elected''))\<rparr>"
  have "consensus_Leader ?c = ([], Some (Error ''no leader elected''))" by simp
  from allocate_no_leader [OF this] show ?thesis by simp
qed

subsection \<open>C9: the legacy form of a pin\<close>

text \<open>
  C9. A \<^verbatim>\<open>PinSerial\<close> with \<^verbatim>\<open>Everywhere\<close> set and a replication factor of 0
  converts to a \<^verbatim>\<open>Pin\<close> whose replication factor is -1 (as a word, and read as a
  signed number); a nonzero replication factor is kept as it is.
\<close>

theorem ToPin_ReplicationFactor:
  "(Everywhere pins \<and> PinSerial.ReplicationFactor pins = 0 \<longrightarrow>
      Pin.ReplicationFactor (ToPin cid_Decode IDB58Decode pins) = - 1 \<and>
      sint (Pin.ReplicationFactor (ToPin cid_Decode IDB58Decode pins)) = - 1) \<and>
   (PinSerial.ReplicationFactor pins \<noteq> 0 \<longrightarrow>
      Pin.ReplicationFactor (ToPin cid_Decode IDB58Decode pins) = PinSerial.ReplicationFactor pins)"
  by (simp add: ToPin_def Let_def)

text \<open>
  A legacy pin, and a pin with a replication factor of 3.
\<close>

theorem ToPin_ReplicationFactor_witness:
  "Pin.ReplicationFactor
     (ToPin (\<lambda>s. (Some s, None)) (\<lambda>s. (s, None))
        \<lparr>PinSerial.Cid = ''QmC'', PinSerial.Name = ''legacy'', PinSerial.Allocations = [],
         Everywhere = True, PinSerial.ReplicationFactor = 0\<rparr>) = - 1 \<and>
   Pin.ReplicationFactor
     (ToPin (\<lambda>s. (Some s, None)) (\<lambda>s. (s, None))
        \<lparr>PinSerial.Cid = ''QmC'', PinSerial.Name = ''three'', PinSerial.Allocations = [''P1''],
         Everywhere = True, PinSerial.ReplicationFactor = 3\<rparr>) = 3"
  using
    ToPin_ReplicationFactor [of
      "\<lparr>PinSerial.Cid = ''QmC'', PinSerial.Name = ''legacy'', PinSerial.Allocations = [],
        Everywhere = True, PinSerial.ReplicationFactor = 0\<rparr>"
      "\<lambda>s. (Some s, None)" "\<lambda>s. (s, None)"]
    ToPin_ReplicationFactor [of
      "\<lparr>PinSerial.Cid = ''QmC'', PinSerial.Name = ''three'', PinSerial.Allocations = [''P1''],
        Everywhere = True, PinSerial.ReplicationFactor = 3\<rparr>"
      "\<lambda>s. (Some s, None)" "\<lambda>s. (s, None)"]
  by simp

subsection \<open>C10: an error comes with a nil list\<close>

text \<open>
  C10. Whenever \<open>allocate\<close> returns an error, the list it returns with it is nil.
\<close>

theorem allocate_error_nil_result:
  "allocate c rt hash rplMin rplMax blacklist = Return (r, Some err) \<Longrightarrow> r = None"
  by (auto simp: allocate_def obtainAllocations_def Let_def
           split: prod.splits option.splits outcome.splits if_splits)

text \<open>
  One usable peer where two are needed.
\<close>

theorem allocate_error_nil_result_witness:
  "\<exists>r err. allocate (scenario_cluster [] [usable_metric ''P1''] []) scenario_runtime
              (Some ''QmC'') 2 3 [] = Return (r, Some err) \<and> r = None"
proof -
  obtain r err where res: "allocate (scenario_cluster [] [usable_metric ''P1''] [])
      scenario_runtime (Some ''QmC'') 2 3 [] = Return (r, Some err)"
    by (simp add: allocate_defs scenario_defs)
  from allocate_error_nil_result [OF res] res show ?thesis by blast
qed

end
